theory Spec2Isabelle
  imports Complex_Main "HOL-Library.Monad_Syntax"
begin

section \<open>JavaScript values\<close>

text \<open>
  The values the upload component handles are the results of \<^verbatim>\<open>JSON.parse\<close>, the
  initial \<^verbatim>\<open>null\<close> of its local variables and the \<^verbatim>\<open>undefined\<close> it passes for the
  version in the demo path. Numbers are IEEE doubles in the source; the component only
  tests whether a number is zero (\<^verbatim>\<open>NaN\<close> never comes out of \<^verbatim>\<open>JSON.parse\<close>), so they
  are rationals here.
\<close>

datatype "value" =
    VUndefined
  | VNull
  | VBool bool
  | VNumber rat
  | VString string
  | VArray "value list"
  | VObject "(string \<times> value) list"

text \<open>JavaScript's ToBoolean, as used by \<^verbatim>\<open>!x\<close>, \<^verbatim>\<open>x || y\<close> and \<^verbatim>\<open>if (x)\<close>.\<close>

fun truthy :: "value \<Rightarrow> bool" where
  "truthy VUndefined = False"
| "truthy VNull = False"
| "truthy (VBool b) = b"
| "truthy (VNumber n) = (n \<noteq> 0)"
| "truthy (VString s) = (s \<noteq> [])"
| "truthy (VArray xs) = True"
| "truthy (VObject kvs) = True"

text \<open>\<^verbatim>\<open>a || b\<close> on values.\<close>

definition orElse :: "value \<Rightarrow> value \<Rightarrow> value" where
  "orElse a b = (if truthy a then a else b)"

section \<open>Strings\<close>

text \<open>
  Paths are byte strings. \<^verbatim>\<open>toLowerCase\<close> maps the letters A to Z to a to z and leaves
  every other byte alone. (Outside ASCII, JavaScript lower-cases more characters, but
  none of them to a character of the recognised file names, apart from U+0130 and U+212A,
  which give \<^verbatim>\<open>i\<close> followed by U+0307 and \<^verbatim>\<open>k\<close>: no recognised name has a \<^verbatim>\<open>k\<close> or
  ends in \<^verbatim>\<open>i\<close>, so the substring tests below come out the same.)
\<close>

definition lowerChar :: "char \<Rightarrow> char" where
  "lowerChar c =
     (let n = (of_char c :: nat) in if 65 \<le> n \<and> n \<le> 90 then char_of (n + 32) else c)"

definition upperChar :: "char \<Rightarrow> char" where
  "upperChar c =
     (let n = (of_char c :: nat) in if 97 \<le> n \<and> n \<le> 122 then char_of (n - 32) else c)"

definition toLowerCase :: "string \<Rightarrow> string" where
  "toLowerCase s = map lowerChar s"

definition toUpperCase :: "string \<Rightarrow> string" where
  "toUpperCase s = map upperChar s"

text \<open>\<^verbatim>\<open>s.startsWith(t)\<close> and \<^verbatim>\<open>s.includes(t)\<close> (\<open>includes\<close> is an Isabelle keyword).\<close>

fun startsWith :: "string \<Rightarrow> string \<Rightarrow> bool" where
  "startsWith s [] = True"
| "startsWith [] (d # t) = False"
| "startsWith (c # s) (d # t) = (c = d \<and> startsWith s t)"

fun includesStr :: "string \<Rightarrow> string \<Rightarrow> bool" where
  "includesStr [] t = (t = [])"
| "includesStr (c # s) t = (startsWith (c # s) t \<or> includesStr s t)"

text \<open>\<^verbatim>\<open>xs.join(', ')\<close>.\<close>

fun join :: "string list \<Rightarrow> string" where
  "join [] = []"
| "join [x] = x"
| "join (x # y # ys) = x @ '', '' @ join (y # ys)"

section \<open>The archive and the primary pass of processZipFile\<close>

text \<open>
  An entry of \<^verbatim>\<open>contents.files\<close>: its \<^verbatim>\<open>dir\<close> flag and the outcome of
  \<^verbatim>\<open>zipEntry.async('string')\<close>, \<open>None\<close> when that promise rejects. The archive is
  the list \<^verbatim>\<open>Object.entries(contents.files)\<close>, in the order in which \<^verbatim>\<open>Object.entries\<close>
  enumerates it. That object is keyed by entry name, so this need not be the order of the
  zip's directory when a name is repeated there. \<^verbatim>\<open>JSON.parse\<close> is a parameter \<open>parse\<close>
  of the loop, \<open>None\<close> when it throws.
\<close>

record zipObject =
  dir :: bool
  async_string :: "string option"

type_synonym files = "(string \<times> zipObject) list"

text \<open>The local variables of \<^verbatim>\<open>processZipFile\<close>, all \<^verbatim>\<open>null\<close> at first.\<close>

record locals =
  errorsJson :: "value"
  policiesJson :: "value"
  versionJson :: "value"
  shardsJson :: "value"
  allocationJson :: "value"
  settingsJson :: "value"
  nodesStatsJson :: "value"
  pipelinesJson :: "value"
  foundFiles :: "string list"

definition initialLocals :: locals where
  "initialLocals =
     \<lparr>errorsJson = VNull, policiesJson = VNull, versionJson = VNull, shardsJson = VNull,
      allocationJson = VNull, settingsJson = VNull, nodesStatsJson = VNull,
      pipelinesJson = VNull, foundFiles = []\<rparr>"

text \<open>The \<^verbatim>\<open>if\<close> / \<^verbatim>\<open>else if\<close> chain of lines 52 to 76.\<close>

definition assign :: "string \<Rightarrow> value \<Rightarrow> locals \<Rightarrow> locals" where
  "assign normalizedPath json v =
     (if includesStr normalizedPath ''ilm_explain_only_errors.json'' then
        v\<lparr>errorsJson := json, foundFiles := foundFiles v @ [''ILM Errors'']\<rparr>
      else if includesStr normalizedPath ''ilm_policies.json'' then
        v\<lparr>policiesJson := json, foundFiles := foundFiles v @ [''ILM Policies'']\<rparr>
      else if includesStr normalizedPath ''version.json'' then
        v\<lparr>versionJson := json, foundFiles := foundFiles v @ [''Version Info'']\<rparr>
      else if includesStr normalizedPath ''shards.json'' then
        v\<lparr>shardsJson := json, foundFiles := foundFiles v @ [''Shards Info'']\<rparr>
      else if includesStr normalizedPath ''allocation_explain.json'' then
        v\<lparr>allocationJson := json, foundFiles := foundFiles v @ [''Allocation Info'']\<rparr>
      else if includesStr normalizedPath ''settings.json'' then
        v\<lparr>settingsJson := json, foundFiles := foundFiles v @ [''Settings Info'']\<rparr>
      else if includesStr normalizedPath ''nodes_stats.json'' then
        v\<lparr>nodesStatsJson := json, foundFiles := foundFiles v @ [''Nodes Stats'']\<rparr>
      else if includesStr normalizedPath ''pipelines.json'' then
        v\<lparr>pipelinesJson := json, foundFiles := foundFiles v @ [''Pipelines'']\<rparr>
      else v)"

text \<open>
  The body of the inner \<^verbatim>\<open>try\<close> (lines 49 to 76): \<open>None\<close> when the entry's text
  cannot be read or \<^verbatim>\<open>JSON.parse\<close> throws.
\<close>

definition tryEntry ::
  "(string \<Rightarrow> value option) \<Rightarrow> string \<Rightarrow> zipObject \<Rightarrow> locals \<Rightarrow> locals option" where
  "tryEntry parse path zipEntry v =
     (case async_string zipEntry of
        None \<Rightarrow> None
      | Some content \<Rightarrow>
          (case parse content of
             None \<Rightarrow> None
           | Some json \<Rightarrow> Some (assign (toLowerCase path) json v)))"

text \<open>
  One round of the loop of lines 42 to 80: directories are skipped, and the
  \<^verbatim>\<open>catch\<close> of line 77 only logs, so a failing entry leaves the variables as they are.
\<close>

definition processEntry ::
  "(string \<Rightarrow> value option) \<Rightarrow> locals \<Rightarrow> string \<times> zipObject \<Rightarrow> locals" where
  "processEntry parse v e =
     (if dir (snd e) then v
      else (case tryEntry parse (fst e) (snd e) v of None \<Rightarrow> v | Some v' \<Rightarrow> v'))"

definition processFiles :: "(string \<Rightarrow> value option) \<Rightarrow> files \<Rightarrow> locals" where
  "processFiles parse fs = foldl (processEntry parse) initialLocals fs"

section \<open>The component's state and processZipFile\<close>

text \<open>The eight positional arguments of one call of \<^verbatim>\<open>onDataLoaded\<close>.\<close>

record dataBundle =
  errors :: "value"
  policies :: "value"
  version :: "value"
  shards :: "value"
  allocation :: "value"
  settings :: "value"
  nodesStats :: "value"
  pipelines :: "value"

text \<open>A thrown value: an \<^verbatim>\<open>Error\<close> with its message, or anything else.\<close>

datatype exn = Error string | Thrown

text \<open>
  A file the user hands over: its MIME type and the outcome of \<^verbatim>\<open>zip.loadAsync(file)\<close>,
  \<open>Inl\<close> when the promise rejects.
\<close>

record upload =
  ftype :: string
  loadAsync :: "exn + files"

text \<open>
  What the component can change: its two React state variables, \<^verbatim>\<open>localStorage\<close>
  (a map), the tasks handed to \<^verbatim>\<open>setTimeout\<close> and not yet run (each is the archive its
  closure holds), and the calls of \<^verbatim>\<open>onDataLoaded\<close> made so far, oldest first. Console
  output is left out.
\<close>

record state =
  isLoading :: bool
  error :: "string option"
  localStorage :: "string \<rightharpoonup> string"
  timers :: "files list"
  delivered :: "dataBundle list"

text \<open>
  What the component calls and does not define. \<^verbatim>\<open>JSON.parse\<close> gives \<open>None\<close> when it
  throws. \<^verbatim>\<open>JSON.stringify\<close> gives \<open>Inl\<close> when it throws (a \<^verbatim>\<open>RangeError\<close> on a value
  nested too deeply). \<^verbatim>\<open>localStorage.setItem\<close> throws or not depending on the storage, the
  key and the text (a \<^verbatim>\<open>QuotaExceededError\<close>, or storage that is blocked); when it does
  not throw it updates the map. The callback \<^verbatim>\<open>onDataLoaded\<close> is the caller's: it returns or
  throws.
\<close>

record platform =
  JSON_parse :: "string \<Rightarrow> value option"
  JSON_stringify :: "value \<Rightarrow> exn + string"
  setItem_throws :: "(string \<rightharpoonup> string) \<Rightarrow> string \<Rightarrow> string \<Rightarrow> exn option"
  onDataLoaded :: "dataBundle \<Rightarrow> exn option"

text \<open>\<^verbatim>\<open>localStorage.setItem(key, JSON.stringify(json))\<close>: \<open>Inl\<close> when either call throws.\<close>

definition storeItem ::
  "platform \<Rightarrow> (string \<rightharpoonup> string) \<Rightarrow> string \<Rightarrow> value \<Rightarrow> exn + (string \<rightharpoonup> string)" where
  "storeItem env ls key json =
     (case JSON_stringify env json of
        Inl err \<Rightarrow> Inl err
      | Inr text \<Rightarrow>
          (case setItem_throws env ls key text of
             Some err \<Rightarrow> Inl err
           | None \<Rightarrow> Inr (ls(key \<mapsto> text))))"

definition missingFiles :: "locals \<Rightarrow> string list" where
  "missingFiles v =
     (if \<not> truthy (errorsJson v) then [''ilm_explain_only_errors.json''] else []) @
     (if \<not> truthy (policiesJson v) then [''ilm_policies.json''] else [])"

definition noteMessage :: "locals \<Rightarrow> string" where
  "noteMessage v =
     ''Note: Some ILM files are missing ('' @ join (missingFiles v) @
     ''), but you can still view available data.''"

definition toBundle :: "locals \<Rightarrow> dataBundle" where
  "toBundle v =
     \<lparr>errors = errorsJson v, policies = policiesJson v, version = versionJson v,
      shards = orElse (shardsJson v) (VArray []), allocation = allocationJson v,
      settings = settingsJson v, nodesStats = nodesStatsJson v,
      pipelines = pipelinesJson v\<rparr>"

text \<open>Lines 121 to 123: the settings are stored when they are truthy.\<close>

definition storeSettings ::
  "platform \<Rightarrow> (string \<rightharpoonup> string) \<Rightarrow> locals \<Rightarrow> exn + (string \<rightharpoonup> string)" where
  "storeSettings env ls v =
     (if truthy (settingsJson v) then storeItem env ls ''settings'' (settingsJson v) else Inr ls)"

text \<open>
  The outer \<^verbatim>\<open>try\<close> block (lines 25 to 135): \<open>Inl\<close> with the thrown value and the
  state reached when it throws. A throw while the settings are stored leaves the block
  after the advisory is set and the task is scheduled, and before the callback; a throw of
  the callback leaves it after the call was made.
\<close>

definition tryZip :: "platform \<Rightarrow> state \<Rightarrow> upload \<Rightarrow> exn \<times> state + state" where
  "tryZip env st f =
     (let st1 = st\<lparr>isLoading := True, error := None\<rparr> in
      case loadAsync f of
        Inl err \<Rightarrow> Inl (err, st1)
      | Inr contents \<Rightarrow>
          (let v = processFiles (JSON_parse env) contents;
               st2 = (if \<not> truthy (errorsJson v) \<or> \<not> truthy (policiesJson v)
                      then st1\<lparr>error := Some (noteMessage v)\<rparr> else st1);
               st3 = st2\<lparr>timers := timers st2 @ [contents]\<rparr>
           in case storeSettings env (localStorage st3) v of
                Inl err \<Rightarrow> Inl (err, st3)
              | Inr ls \<Rightarrow>
                  (let st4 = st3\<lparr>localStorage := ls\<rparr>;
                       st5 = st4\<lparr>delivered := delivered st4 @ [toBundle v]\<rparr>
                   in case onDataLoaded env (toBundle v) of
                        Some err \<Rightarrow> Inl (err, st5)
                      | None \<Rightarrow> Inr st5)))"

text \<open>The message the \<^verbatim>\<open>catch\<close> of line 138 shows.\<close>

definition message :: "exn \<Rightarrow> string" where
  "message err = (case err of Error m \<Rightarrow> m | Thrown \<Rightarrow> ''Failed to process ZIP file'')"

text \<open>
  \<^verbatim>\<open>processZipFile\<close> with its \<^verbatim>\<open>catch\<close> and \<^verbatim>\<open>finally\<close>. The result is the promise
  of the \<^verbatim>\<open>async\<close> function: \<open>Inl\<close> would be a rejection.
\<close>

definition processZipFile :: "platform \<Rightarrow> state \<Rightarrow> upload \<Rightarrow> exn + state" where
  "processZipFile env st f =
     (let st' =
        (case tryZip env st f of
           Inl (err, s) \<Rightarrow> s\<lparr>error := Some (message err)\<rparr>
         | Inr s \<Rightarrow> s)
      in Inr (st'\<lparr>isLoading := False\<rparr>))"

text \<open>
  The task of lines 96 to 118, run later: one round of its loop, and the task. The
  \<^verbatim>\<open>catch\<close> of line 113 swallows a failure to read, to parse or to store.
\<close>

definition optionalEntry ::
  "platform \<Rightarrow> (string \<rightharpoonup> string) \<Rightarrow> string \<times> zipObject \<Rightarrow> (string \<rightharpoonup> string)" where
  "optionalEntry env ls e =
     (if dir (snd e) then ls
      else
        (let normalizedPath = toLowerCase (fst e) in
         if includesStr normalizedPath ''index_templates.json'' \<or>
            includesStr normalizedPath ''alias.json'' \<or>
            includesStr normalizedPath ''aliases.json''
         then
           (case Option.bind (async_string (snd e)) (JSON_parse env) of
              None \<Rightarrow> ls
            | Some json \<Rightarrow>
                if includesStr normalizedPath ''index_templates.json'' then
                  (case storeItem env ls ''index_templates'' json of
                     Inl err \<Rightarrow> ls | Inr ls' \<Rightarrow> ls')
                else if includesStr normalizedPath ''alias.json'' \<or>
                        includesStr normalizedPath ''aliases.json'' then
                  (case storeItem env ls ''aliases'' json of
                     Inl err \<Rightarrow> ls | Inr ls' \<Rightarrow> ls')
                else ls)
         else ls))"

definition runTimer :: "platform \<Rightarrow> state \<Rightarrow> state" where
  "runTimer env st =
     (case timers st of
        [] \<Rightarrow> st
      | contents # rest \<Rightarrow>
          st\<lparr>timers := rest,
             localStorage := foldl (optionalEntry env) (localStorage st) contents\<rparr>)"

text \<open>\<^verbatim>\<open>handleDrop\<close> with the first dropped file, if any, and \<^verbatim>\<open>handleFileChange\<close>.\<close>

definition handleDrop :: "platform \<Rightarrow> state \<Rightarrow> upload option \<Rightarrow> exn + state" where
  "handleDrop env st dropped =
     (case dropped of
        Some f \<Rightarrow>
          if ftype f = ''application/zip'' then processZipFile env st f
          else Inr (st\<lparr>error := Some ''Please upload a ZIP file''\<rparr>)
      | None \<Rightarrow> Inr (st\<lparr>error := Some ''Please upload a ZIP file''\<rparr>))"

definition handleFileChange :: "platform \<Rightarrow> state \<Rightarrow> upload option \<Rightarrow> exn + state" where
  "handleFileChange env st chosen =
     (case chosen of Some f \<Rightarrow> processZipFile env st f | None \<Rightarrow> Inr st)"

section \<open>loadDemoData\<close>






section \<open>NodesView\<close>

text \<open>
  Modelled from the spec: the declarations of \<^verbatim>\<open>MasterNode\<close> and of the node records
  (the types module) are not among the sources. Of a master record the view reads
  \<^verbatim>\<open>id\<close> and \<^verbatim>\<open>node\<close>, of a node its \<^verbatim>\<open>name\<close>; all three are strings.
\<close>

record MasterNode =
  master_id :: string
  master_node :: string

record NodeRecord =
  name :: string

definition isMasterNode :: "MasterNode option \<Rightarrow> string \<Rightarrow> string \<Rightarrow> bool" where
  "isMasterNode masterNode nodeId nodeName =
     (case masterNode of
        None \<Rightarrow> False
      | Some m \<Rightarrow> master_id m = nodeId \<or> master_node m = nodeName)"

text \<open>The \<^verbatim>\<open>isMaster\<close> flag of each card, in the order of \<^verbatim>\<open>Object.entries(nodes)\<close>.\<close>

definition masterFlags :: "MasterNode option \<Rightarrow> (string \<times> NodeRecord) list \<Rightarrow> (string \<times> bool) list" where
  "masterFlags masterNode nodes =
     map (\<lambda>(nodeId, node). (nodeId, isMasterNode masterNode nodeId (name node))) nodes"

section \<open>The filename table of the specification\<close>

text \<open>
  The specification speaks of a fixed ordered table of filename rules, of a path matching
  a rule, and of the first matching rule applying. These definitions follow its words;
  the theorems below relate them to the \<^verbatim>\<open>if\<close> chain of the source.
\<close>

datatype rule = Errors | Policies | Version | Shards | Allocation | Settings | NodesStats | Pipelines

fun filename :: "rule \<Rightarrow> string" where
  "filename Errors = ''ilm_explain_only_errors.json''"
| "filename Policies = ''ilm_policies.json''"
| "filename Version = ''version.json''"
| "filename Shards = ''shards.json''"
| "filename Allocation = ''allocation_explain.json''"
| "filename Settings = ''settings.json''"
| "filename NodesStats = ''nodes_stats.json''"
| "filename Pipelines = ''pipelines.json''"

definition rules :: "rule list" where
  "rules = [Errors, Policies, Version, Shards, Allocation, Settings, NodesStats, Pipelines]"

definition matches :: "string \<Rightarrow> rule \<Rightarrow> bool" where
  "matches path r = includesStr (toLowerCase path) (filename r)"

definition applies :: "string \<Rightarrow> rule option" where
  "applies path = find (matches path) rules"

text \<open>The local variable a rule assigns, and the callback argument it ends up in.\<close>

fun var :: "rule \<Rightarrow> locals \<Rightarrow> value" where
  "var Errors v = errorsJson v"
| "var Policies v = policiesJson v"
| "var Version v = versionJson v"
| "var Shards v = shardsJson v"
| "var Allocation v = allocationJson v"
| "var Settings v = settingsJson v"
| "var NodesStats v = nodesStatsJson v"
| "var Pipelines v = pipelinesJson v"

fun arg :: "rule \<Rightarrow> dataBundle \<Rightarrow> value" where
  "arg Errors b = errors b"
| "arg Policies b = policies b"
| "arg Version b = version b"
| "arg Shards b = shards b"
| "arg Allocation b = allocation b"
| "arg Settings b = settings b"
| "arg NodesStats b = nodesStats b"
| "arg Pipelines b = pipelines b"

text \<open>
  What an entry yields: nothing for a directory or when its text cannot be read or parsed.
  The contributions to a rule are the parsed contents of the entries the rule applies to,
  in the order of the list; \<open>lastValue\<close> is the last of them, \<^verbatim>\<open>null\<close> if there is none.
\<close>

definition parsed :: "(string \<Rightarrow> value option) \<Rightarrow> zipObject \<Rightarrow> value option" where
  "parsed parse zipEntry =
     (if dir zipEntry then None else Option.bind (async_string zipEntry) parse)"

definition contributions :: "(string \<Rightarrow> value option) \<Rightarrow> rule \<Rightarrow> files \<Rightarrow> value list" where
  "contributions parse r fs =
     List.map_filter (\<lambda>e. if applies (fst e) = Some r then parsed parse (snd e) else None) fs"

definition lastValue :: "(string \<Rightarrow> value option) \<Rightarrow> rule \<Rightarrow> files \<Rightarrow> value" where
  "lastValue parse r fs = last (VNull # contributions parse r fs)"

subsection \<open>The demo resources\<close>



section \<open>Example inputs\<close>

text \<open>
  Stand-ins for \<^verbatim>\<open>JSON.parse\<close> and \<^verbatim>\<open>JSON.stringify\<close> in the examples: they agree with
  the real functions on the texts and values the examples use (\<^verbatim>\<open>{\<close> is not JSON), and are
  not meant beyond them.
\<close>

definition exampleParse :: "string \<Rightarrow> value option" where
  "exampleParse s =
     map_of [(''null'', VNull), (''false'', VBool False), (''0'', VNumber 0),
             (''{}'', VObject []), (''[]'', VArray []),
             (''[1]'', VArray [VNumber 1]), (''[2]'', VArray [VNumber 2]),
             (''[3]'', VArray [VNumber 3])] s"

definition exampleStringify :: "value \<Rightarrow> string" where
  "exampleStringify j =
     (if j = VNull then ''null'' else if j = VBool False then ''false''
      else if j = VObject [] then ''{}'' else if j = VArray [] then ''[]''
      else if j = VArray [VNumber 1] then ''[1]'' else ''0'')"

text \<open>A platform on which nothing throws, and one whose storage is full.\<close>

definition examplePlatform :: platform where
  "examplePlatform =
     \<lparr>JSON_parse = exampleParse, JSON_stringify = (\<lambda>j. Inr (exampleStringify j)),
      setItem_throws = (\<lambda>ls key text. None), onDataLoaded = (\<lambda>b. None)\<rparr>"

definition fullStorage :: platform where
  "fullStorage =
     examplePlatform\<lparr>setItem_throws := (\<lambda>ls key text. Some (Error ''The quota has been exceeded.''))\<rparr>"

definition entry :: "string \<Rightarrow> string \<Rightarrow> string \<times> zipObject" where
  "entry path content = (path, \<lparr>dir = False, async_string = Some content\<rparr>)"

definition archive :: "files \<Rightarrow> upload" where
  "archive fs = \<lparr>ftype = ''application/zip'', loadAsync = Inr fs\<rparr>"


text \<open>The component as first rendered, with nothing stored.\<close>

definition initialState :: state where
  "initialState =
     \<lparr>isLoading = False, error = None, localStorage = Map.empty, timers = [], delivered = []\<rparr>"

section \<open>Substrings and letter case\<close>

lemma startsWith_iff: "startsWith s t \<longleftrightarrow> (\<exists>suf. s = t @ suf)"
  by (induction s t rule: startsWith.induct) auto

lemma includesStr_iff: "includesStr s t \<longleftrightarrow> (\<exists>pre suf. s = pre @ t @ suf)"
proof (induction s)
  case Nil
  show ?case by auto
next
  case (Cons c s)
  show ?case
  proof
    assume "includesStr (c # s) t"
    then consider "startsWith (c # s) t" | "includesStr s t" by auto
    then show "\<exists>pre suf. c # s = pre @ t @ suf"
    proof cases
      case 1
      then obtain suf where "c # s = t @ suf" by (auto simp: startsWith_iff)
      then have "c # s = [] @ t @ suf" by simp
      then show ?thesis by blast
    next
      case 2
      then obtain pre suf where "s = pre @ t @ suf" using Cons.IH by auto
      then have "c # s = (c # pre) @ t @ suf" by simp
      then show ?thesis by blast
    qed
  next
    assume "\<exists>pre suf. c # s = pre @ t @ suf"
    then obtain pre suf where eq: "c # s = pre @ t @ suf" by blast
    show "includesStr (c # s) t"
    proof (cases pre)
      case Nil
      with eq have "startsWith (c # s) t" by (auto simp: startsWith_iff)
      then show ?thesis by simp
    next
      case (Cons d pre')
      with eq have "s = pre' @ t @ suf" by simp
      then have "includesStr s t" using Cons.IH by blast
      then show ?thesis by simp
    qed
  qed
qed

lemma lowerChar_upperChar: "lowerChar (upperChar c) = lowerChar c"
  by (auto simp: lowerChar_def upperChar_def Let_def)

lemma toLowerCase_toUpperCase: "toLowerCase (toUpperCase s) = toLowerCase s"
  by (simp add: toLowerCase_def toUpperCase_def lowerChar_upperChar)

lemmas lower_eval = toLowerCase_def lowerChar_def char_of_eq_iff take_bit_eq_mod

lemmas upper_eval = toUpperCase_def upperChar_def char_of_eq_iff take_bit_eq_mod

section \<open>The if chain and the table\<close>

lemma applies_iff:
  "applies path = Some r \<longleftrightarrow>
     matches path r \<and> (\<forall>r' \<in> set (takeWhile (\<lambda>x. x \<noteq> r) rules). \<not> matches path r')"
  by (cases r) (auto simp: applies_def rules_def)

lemma matches_some:
  "(\<exists>r. matches path r) \<longleftrightarrow> list_ex (matches path) rules"
proof -
  have "set rules = UNIV"
    using rule.exhaust by (auto simp: rules_def)
  then show ?thesis by (auto simp: list_ex_iff)
qed

lemma assign_changes:
  "assign (toLowerCase path) json v \<noteq> v \<longleftrightarrow> (\<exists>r. matches path r)"
proof (cases "list_ex (matches path) rules")
  case True
  then have "length (foundFiles (assign (toLowerCase path) json v)) = Suc (length (foundFiles v))"
    by (auto simp: assign_def rules_def matches_def)
  then have "assign (toLowerCase path) json v \<noteq> v" by auto
  with True show ?thesis by (simp add: matches_some)
next
  case False
  then have "assign (toLowerCase path) json v = v"
    by (simp add: assign_def rules_def matches_def)
  with False show ?thesis by (simp add: matches_some)
qed

lemma var_assign:
  "var r (assign (toLowerCase p) j v) = (if applies p = Some r then j else var r v)"
  by (cases r) (simp_all add: assign_def applies_def rules_def matches_def)

lemma var_processEntry:
  "var r (processEntry parse v e) =
     (case (if applies (fst e) = Some r then parsed parse (snd e) else None) of
        None \<Rightarrow> var r v
      | Some j \<Rightarrow> j)"
  by (simp add: processEntry_def tryEntry_def parsed_def var_assign split: option.splits)

lemma var_foldl:
  "var r (foldl (processEntry parse) v fs) = last (var r v # contributions parse r fs)"
proof (induction fs arbitrary: v)
  case Nil
  show ?case by (simp add: contributions_def)
next
  case (Cons e fs)
  show ?case
    using Cons.IH [of "processEntry parse v e"]
    by (simp add: contributions_def var_processEntry split: option.splits)
qed

lemma var_processFiles: "var r (processFiles parse fs) = lastValue parse r fs"
  by (cases r) (simp_all add: processFiles_def lastValue_def var_foldl initialLocals_def)

lemma arg_toBundle:
  "arg r (toBundle v) = (if r = Shards then orElse (var r v) (VArray []) else var r v)"
  by (cases r) (simp_all add: toBundle_def)

section \<open>What processZipFile and loadDemoData compute\<close>

lemma storeItem_Inr:
  "storeItem env ls key json = Inr ls' \<longleftrightarrow>
     (\<exists>text. JSON_stringify env json = Inr text \<and> setItem_throws env ls key text = None \<and>
        ls' = ls(key \<mapsto> text))"
  by (auto simp: storeItem_def split: sum.splits option.splits)

lemma processZipFile_failed:
  assumes "loadAsync f = Inl err"
  shows "processZipFile env st f = Inr (st\<lparr>isLoading := False, error := Some (message err)\<rparr>)"
  using assms by (simp add: processZipFile_def tryZip_def Let_def)

lemma processZipFile_store_throws:
  assumes "loadAsync f = Inr fs"
    and "storeSettings env (localStorage st) (processFiles (JSON_parse env) fs) = Inl err"
  shows "processZipFile env st f =
    Inr (st\<lparr>isLoading := False, error := Some (message err), timers := timers st @ [fs]\<rparr>)"
  using assms by (simp add: processZipFile_def tryZip_def Let_def)

lemma processZipFile_stored:
  assumes "loadAsync f = Inr fs"
    and "storeSettings env (localStorage st) (processFiles (JSON_parse env) fs) = Inr ls"
  shows "processZipFile env st f =
    Inr (st\<lparr>isLoading := False,
            error :=
              (case onDataLoaded env (toBundle (processFiles (JSON_parse env) fs)) of
                 Some err \<Rightarrow> Some (message err)
               | None \<Rightarrow>
                   (if truthy (errorsJson (processFiles (JSON_parse env) fs)) \<and>
                       truthy (policiesJson (processFiles (JSON_parse env) fs))
                    then None else Some (noteMessage (processFiles (JSON_parse env) fs)))),
            localStorage := ls,
            timers := timers st @ [fs],
            delivered := delivered st @ [toBundle (processFiles (JSON_parse env) fs)]\<rparr>)"
  using assms by (simp add: processZipFile_def tryZip_def Let_def split: option.splits)

lemma processZipFile_delivers:
  assumes "loadAsync f = Inr fs"
  shows "\<exists>s. processZipFile env st f = Inr s \<and>
     (delivered s = delivered st \<or>
      delivered s = delivered st @ [toBundle (processFiles (JSON_parse env) fs)]) \<and>
     (\<forall>ls. storeSettings env (localStorage st) (processFiles (JSON_parse env) fs) = Inr ls \<longrightarrow>
        delivered s = delivered st @ [toBundle (processFiles (JSON_parse env) fs)])"
proof (cases "storeSettings env (localStorage st) (processFiles (JSON_parse env) fs)")
  case (Inl err)
  show ?thesis by (simp add: processZipFile_store_throws [OF assms Inl] Inl)
next
  case (Inr ls)
  show ?thesis by (simp add: processZipFile_stored [OF assms Inr] Inr)
qed



lemma contributions_append:
  "contributions parse r (xs @ ys) = contributions parse r xs @ contributions parse r ys"
  unfolding contributions_def by (induction xs) (simp_all split: option.splits)

lemma contributions_Cons:
  "contributions parse r (e # ys) =
     (case (if applies (fst e) = Some r then parsed parse (snd e) else None) of
        None \<Rightarrow> contributions parse r ys | Some j \<Rightarrow> j # contributions parse r ys)"
  unfolding contributions_def by simp

lemma contributions_Nil: "contributions parse r [] = []"
  unfolding contributions_def by simp

lemma contributions_empty_iff:
  "contributions parse r fs = [] \<longleftrightarrow>
     (\<forall>e \<in> set fs. applies (fst e) = Some r \<longrightarrow> parsed parse (snd e) = None)"
  by (induction fs) (auto simp: contributions_Cons contributions_Nil split: option.splits)

lemma lastValue_none:
  assumes "\<forall>e \<in> set fs. applies (fst e) = Some r \<longrightarrow> parsed parse (snd e) = None"
  shows "lastValue parse r fs = VNull"
proof -
  have "contributions parse r fs = []" using assms by (simp add: contributions_empty_iff)
  then show ?thesis by (simp add: lastValue_def)
qed

lemma lastValue_last:
  assumes a: "applies (fst e) = Some r" and p: "parsed parse (snd e) = Some j"
    and rest: "\<forall>d \<in> set ys. applies (fst d) = Some r \<longrightarrow> parsed parse (snd d) = None"
  shows "lastValue parse r (xs @ e # ys) = j"
proof -
  have "contributions parse r ys = []" using rest by (simp add: contributions_empty_iff)
  then have "contributions parse r (xs @ e # ys) = contributions parse r xs @ [j]"
    using a p by (simp add: contributions_append contributions_Cons)
  then show ?thesis by (simp add: lastValue_def)
qed

lemma arg_values:
  "arg r (toBundle (processFiles parse fs)) =
     (if r = Shards then orElse (lastValue parse r fs) (VArray []) else lastValue parse r fs)"
  by (simp add: arg_toBundle var_processFiles)

lemma arg_absent:
  assumes "\<forall>e \<in> set fs. applies (fst e) = Some r \<longrightarrow> parsed parse (snd e) = None"
  shows "arg r (toBundle (processFiles parse fs)) = (if r = Shards then VArray [] else VNull)"
proof -
  have l: "lastValue parse r fs = VNull" using assms by (rule lastValue_none)
  show ?thesis unfolding arg_values l by (simp add: orElse_def)
qed



lemma optionalEntry_settings:
  "optionalEntry env ls e ''settings'' = ls ''settings''"
  by (auto simp: optionalEntry_def Let_def storeItem_Inr split: option.splits sum.splits)

lemma optionalFiles_settings:
  "foldl (optionalEntry env) ls fs ''settings'' = ls ''settings''"
  by (induction fs arbitrary: ls) (simp_all add: optionalEntry_settings)

lemma runTimer_settings:
  "localStorage (runTimer env s) ''settings'' = localStorage s ''settings''"
  by (simp add: runTimer_def optionalFiles_settings split: list.splits)

lemma noteMessage_cases:
  "noteMessage v =
     ''Note: Some ILM files are missing ('' @
     (if truthy (policiesJson v) then
        (if truthy (errorsJson v) then [] else ''ilm_explain_only_errors.json'')
      else if truthy (errorsJson v) then ''ilm_policies.json''
      else ''ilm_explain_only_errors.json, ilm_policies.json'') @
     ''), but you can still view available data.''"
  by (simp add: noteMessage_def missingFiles_def)

section \<open>Evaluating the examples\<close>

lemma example_paths:
  "toLowerCase ''version.json'' = ''version.json''"
  "toLowerCase ''a/version.json'' = ''a/version.json''"
  "toLowerCase ''b/version.json'' = ''b/version.json''"
  "toLowerCase ''settings.json'' = ''settings.json''"
  "toLowerCase ''a/shards.json'' = ''a/shards.json''"
  "toLowerCase ''b/shards.json'' = ''b/shards.json''"
  "toLowerCase ''version.json.shards.json'' = ''version.json.shards.json''"
  "toLowerCase ''ilm_explain_only_errors.json'' = ''ilm_explain_only_errors.json''"
  "toLowerCase ''ilm_policies.json'' = ''ilm_policies.json''"
  "toLowerCase ''aliases.json'' = ''aliases.json''"
  by (simp_all add: lower_eval)

lemma example_applies:
  "applies ''version.json'' = Some Version"
  "applies ''a/version.json'' = Some Version"
  "applies ''b/version.json'' = Some Version"
  "applies ''settings.json'' = Some Settings"
  "applies ''a/shards.json'' = Some Shards"
  "applies ''b/shards.json'' = Some Shards"
  "applies ''version.json.shards.json'' = Some Version"
  "applies ''ilm_explain_only_errors.json'' = Some Errors"
  "applies ''ilm_policies.json'' = Some Policies"
  by (simp_all add: applies_def rules_def matches_def example_paths)

lemmas run_eval =
  processZipFile_def tryZip_def storeSettings_def storeItem_def message_def processFiles_def
  processEntry_def tryEntry_def assign_def toBundle_def orElse_def noteMessage_def
  missingFiles_def initialLocals_def initialState_def entry_def archive_def
  examplePlatform_def fullStorage_def exampleParse_def exampleStringify_def example_paths
  Let_def

lemmas spec_eval =
  lastValue_def contributions_def parsed_def example_applies entry_def exampleParse_def
  examplePlatform_def orElse_def

section \<open>The claims\<close>

text \<open>
  The claim C1 as it is worded fails: an archive whose only entry is a file named
  \<^verbatim>\<open>version.json\<close> with the text \<^verbatim>\<open>{\<close>. The entry is not a directory and its name matches
  the version rule, yet the delivered version is \<^verbatim>\<open>null\<close>.
\<close>

theorem C1_counterexample:
  "\<not> dir (snd (entry ''version.json'' ''{'')) \<and>
   matches (fst (entry ''version.json'' ''{'')) Version \<and>
   processZipFile examplePlatform initialState (archive [entry ''version.json'' ''{'']) =
     Inr (initialState
       \<lparr>error := Some (''Note: Some ILM files are missing (ilm_explain_only_errors.json, '' @
                 ''ilm_policies.json), but you can still view available data.''),
        timers := [[entry ''version.json'' ''{'']],
        delivered := [\<lparr>errors = VNull, policies = VNull, version = VNull, shards = VArray [],
                       allocation = VNull, settings = VNull, nodesStats = VNull,
                       pipelines = VNull\<rparr>]\<rparr>)"
  by (simp add: run_eval matches_def)

text \<open>
  C1, amended. For every archive that opens, \<^verbatim>\<open>processZipFile\<close> does not throw and makes at
  most one call of \<^verbatim>\<open>onDataLoaded\<close>; it makes that call whenever storing the settings does
  not throw. In the bundle of the call, each field holds the parsed content of the last
  entry, in the order of \<^verbatim>\<open>Object.entries(contents.files)\<close>, that is not a directory, whose
  text is read and parsed, and to which the field's rule applies (it is the first rule the
  lower-cased path matches); the field is \<^verbatim>\<open>null\<close> when there is no such entry. Shards
  alone differs: it is the empty sequence when there is no such entry or when that content
  is falsy. (What a throw while the settings are stored does is the subject of C3.)
\<close>

theorem C1_bundle_fields:
  assumes "loadAsync f = Inr fs"
  shows "\<exists>s b. processZipFile env st f = Inr s \<and>
     b = toBundle (processFiles (JSON_parse env) fs) \<and>
     (delivered s = delivered st \<or> delivered s = delivered st @ [b]) \<and>
     (\<forall>ls. storeSettings env (localStorage st) (processFiles (JSON_parse env) fs) = Inr ls \<longrightarrow>
        delivered s = delivered st @ [b]) \<and>
     (\<forall>r. arg r b =
        (if r = Shards then orElse (lastValue (JSON_parse env) r fs) (VArray [])
         else lastValue (JSON_parse env) r fs)) \<and>
     (\<forall>r. (\<forall>e \<in> set fs. applies (fst e) = Some r \<longrightarrow> parsed (JSON_parse env) (snd e) = None) \<longrightarrow>
        arg r b = (if r = Shards then VArray [] else VNull))"
proof -
  let ?b = "toBundle (processFiles (JSON_parse env) fs)"
  obtain s where s: "processZipFile env st f = Inr s"
    "delivered s = delivered st \<or> delivered s = delivered st @ [?b]"
    "\<forall>ls. storeSettings env (localStorage st) (processFiles (JSON_parse env) fs) = Inr ls \<longrightarrow>
        delivered s = delivered st @ [?b]"
    using processZipFile_delivers [OF assms, of env st] by blast
  have vals: "\<forall>r. arg r ?b =
      (if r = Shards then orElse (lastValue (JSON_parse env) r fs) (VArray [])
       else lastValue (JSON_parse env) r fs)"
    by (simp add: arg_values)
  have none: "\<forall>r. (\<forall>e \<in> set fs. applies (fst e) = Some r \<longrightarrow>
        parsed (JSON_parse env) (snd e) = None) \<longrightarrow>
      arg r ?b = (if r = Shards then VArray [] else VNull)"
    using arg_absent by blast
  from s vals none show ?thesis by blast
qed

theorem C1_bundle_fields_witness:
  "\<exists>s b. processZipFile examplePlatform initialState
       (archive [entry ''a/version.json'' ''{}'', entry ''b/version.json'' ''[1]'']) = Inr s \<and>
     delivered s = [b] \<and> version b = VArray [VNumber 1] \<and> shards b = VArray [] \<and>
     errors b = VNull"
proof -
  let ?fs = "[entry ''a/version.json'' ''{}'', entry ''b/version.json'' ''[1]'']"
  have la: "loadAsync (archive ?fs) = Inr ?fs" by (simp add: archive_def)
  have st: "storeSettings examplePlatform (localStorage initialState)
      (processFiles (JSON_parse examplePlatform) ?fs) = Inr (localStorage initialState)"
    by (simp add: run_eval)
  obtain s b where
    run: "processZipFile examplePlatform initialState (archive ?fs) = Inr s"
    and d: "\<forall>ls. storeSettings examplePlatform (localStorage initialState)
        (processFiles (JSON_parse examplePlatform) ?fs) = Inr ls \<longrightarrow>
        delivered s = delivered initialState @ [b]"
    and vals: "\<forall>r. arg r b =
      (if r = Shards then orElse (lastValue (JSON_parse examplePlatform) r ?fs) (VArray [])
       else lastValue (JSON_parse examplePlatform) r ?fs)"
    and none: "\<forall>r. (\<forall>e \<in> set ?fs. applies (fst e) = Some r \<longrightarrow>
        parsed (JSON_parse examplePlatform) (snd e) = None) \<longrightarrow>
        arg r b = (if r = Shards then VArray [] else VNull)"
    using C1_bundle_fields [OF la, of examplePlatform initialState] by blast
  from d st have d': "delivered s = delivered initialState @ [b]" by blast
  have v: "version b = VArray [VNumber 1]" using vals [rule_format, of Version]
    by (simp add: spec_eval)
  have hs: "\<forall>e \<in> set ?fs. applies (fst e) = Some Shards \<longrightarrow>
      parsed (JSON_parse examplePlatform) (snd e) = None"
    by (simp add: example_applies entry_def)
  have he: "\<forall>e \<in> set ?fs. applies (fst e) = Some Errors \<longrightarrow>
      parsed (JSON_parse examplePlatform) (snd e) = None"
    by (simp add: example_applies entry_def)
  from none hs have "arg Shards b = (if Shards = Shards then VArray [] else VNull)" by blast
  then have sh: "shards b = VArray []" by simp
  from none he have "arg Errors b = (if Errors = Shards then VArray [] else VNull)" by blast
  then have e: "errors b = VNull" by simp
  from run d' v sh e show ?thesis by (simp add: initialState_def)
qed




text \<open>
  C3. When \<^verbatim>\<open>zip.loadAsync\<close> rejects there is no call of \<^verbatim>\<open>onDataLoaded\<close>, as the claim
  says. For an archive that opens the claim says exactly one call, and the code does not
  always make it: the settings are stored (lines 121 to 123) inside the outer \<^verbatim>\<open>try\<close> and
  before the call, without a \<^verbatim>\<open>catch\<close> of their own. With a storage that is full, the
  archive holding only \<^verbatim>\<open>settings.json\<close> with the text \<^verbatim>\<open>{}\<close> opens, is parsed, and ends
  with the storage's message as a fatal error and no call. The deferred task of the same
  function (lines 104 to 115) meets the same failure on \<^verbatim>\<open>aliases.json\<close> and goes on.
\<close>

theorem C3_store_failure:
  "loadAsync (archive [entry ''settings.json'' ''{}'']) = Inr [entry ''settings.json'' ''{}''] \<and>
   processZipFile fullStorage initialState (archive [entry ''settings.json'' ''{}'']) =
     Inr (initialState
       \<lparr>error := Some ''The quota has been exceeded.'',
        timers := [[entry ''settings.json'' ''{}'']]\<rparr>) \<and>
   delivered (initialState
       \<lparr>error := Some ''The quota has been exceeded.'',
        timers := [[entry ''settings.json'' ''{}'']]\<rparr>) = [] \<and>
   processZipFile examplePlatform initialState (archive [entry ''settings.json'' ''{}'']) =
     Inr (initialState
       \<lparr>error := Some (''Note: Some ILM files are missing (ilm_explain_only_errors.json, '' @
                 ''ilm_policies.json), but you can still view available data.''),
        localStorage := [''settings'' \<mapsto> ''{}''],
        timers := [[entry ''settings.json'' ''{}'']],
        delivered := [\<lparr>errors = VNull, policies = VNull, version = VNull, shards = VArray [],
                       allocation = VNull, settings = VObject [], nodesStats = VNull,
                       pipelines = VNull\<rparr>]\<rparr>) \<and>
   runTimer fullStorage (initialState\<lparr>timers := [[entry ''aliases.json'' ''{}'']]\<rparr>) =
     initialState"
  by (simp add: run_eval runTimer_def optionalEntry_def)




text \<open>
  The claim C5 as it is worded fails: the errors file and the policies file are both
  found (both are parsed and recorded in \<^verbatim>\<open>foundFiles\<close>), the errors file holding
  \<^verbatim>\<open>false\<close>, and the advisory is raised all the same, naming the errors file.
\<close>

theorem C5_counterexample:
  "applies (fst (entry ''ilm_explain_only_errors.json'' ''false'')) = Some Errors \<and>
   applies (fst (entry ''ilm_policies.json'' ''{}'')) = Some Policies \<and>
   JSON_parse examplePlatform ''false'' = Some (VBool False) \<and>
   JSON_parse examplePlatform ''{}'' = Some (VObject []) \<and>
   foundFiles (processFiles (JSON_parse examplePlatform)
       [entry ''ilm_explain_only_errors.json'' ''false'', entry ''ilm_policies.json'' ''{}'']) =
     [''ILM Errors'', ''ILM Policies''] \<and>
   processZipFile examplePlatform initialState
       (archive [entry ''ilm_explain_only_errors.json'' ''false'', entry ''ilm_policies.json'' ''{}'']) =
     Inr (initialState
       \<lparr>error := Some (''Note: Some ILM files are missing (ilm_explain_only_errors.json), '' @
                 ''but you can still view available data.''),
        timers := [[entry ''ilm_explain_only_errors.json'' ''false'',
                    entry ''ilm_policies.json'' ''{}'']],
        delivered := [\<lparr>errors = VBool False, policies = VObject [], version = VNull,
                       shards = VArray [], allocation = VNull, settings = VNull,
                       nodesStats = VNull, pipelines = VNull\<rparr>]\<rparr>)"
  by (simp add: run_eval example_applies)

text \<open>
  C5, amended. After an archive that opens, when storing the settings does not throw and
  the callback returns: no advisory is raised when the errors variable and the policies
  variable are both truthy at the end of the loop; when either is falsy (no entry was found
  for it, or the last one found holds \<^verbatim>\<open>null\<close>, \<^verbatim>\<open>false\<close>, \<^verbatim>\<open>0\<close> or the empty string) the
  advisory beginning \<^verbatim>\<open>Note:\<close> names exactly the filenames of the falsy ones. In both cases
  one bundle is delivered, with its fields as in C1. (What a throw while the settings are
  stored does is the subject of C3.)
\<close>

theorem C5_advisory:
  assumes "loadAsync f = Inr fs"
    and "storeSettings env (localStorage st) (processFiles (JSON_parse env) fs) = Inr ls"
    and "onDataLoaded env (toBundle (processFiles (JSON_parse env) fs)) = None"
  shows "\<exists>s b. processZipFile env st f = Inr s \<and>
     delivered s = delivered st @ [b] \<and>
     (\<forall>r. arg r b =
        (if r = Shards then orElse (lastValue (JSON_parse env) r fs) (VArray [])
         else lastValue (JSON_parse env) r fs)) \<and>
     error s =
       (if truthy (lastValue (JSON_parse env) Errors fs) \<and>
           truthy (lastValue (JSON_parse env) Policies fs) then None
        else Some (''Note: Some ILM files are missing ('' @
               (if truthy (lastValue (JSON_parse env) Policies fs)
                then ''ilm_explain_only_errors.json''
                else if truthy (lastValue (JSON_parse env) Errors fs) then ''ilm_policies.json''
                else ''ilm_explain_only_errors.json, ilm_policies.json'') @
               ''), but you can still view available data.''))"
proof -
  let ?P = "JSON_parse env"
  let ?v = "processFiles ?P fs"
  have e: "errorsJson ?v = lastValue ?P Errors fs"
    using var_processFiles [of Errors ?P fs] by simp
  have p: "policiesJson ?v = lastValue ?P Policies fs"
    using var_processFiles [of Policies ?P fs] by simp
  have vals: "\<forall>r. arg r (toBundle ?v) =
      (if r = Shards then orElse (lastValue ?P r fs) (VArray []) else lastValue ?P r fs)"
    by (simp add: arg_values)
  have msg: "(if truthy (errorsJson ?v) \<and> truthy (policiesJson ?v)
                      then None else Some (noteMessage ?v)) =
       (if truthy (lastValue ?P Errors fs) \<and> truthy (lastValue ?P Policies fs) then None
        else Some (''Note: Some ILM files are missing ('' @
               (if truthy (lastValue ?P Policies fs) then ''ilm_explain_only_errors.json''
                else if truthy (lastValue ?P Errors fs) then ''ilm_policies.json''
                else ''ilm_explain_only_errors.json, ilm_policies.json'') @
               ''), but you can still view available data.''))"
    by (simp add: noteMessage_cases e p)
  show ?thesis
    using vals msg by (simp add: processZipFile_stored [OF assms(1,2)] assms(3))
qed

theorem C5_advisory_witness:
  "\<exists>s b. processZipFile examplePlatform initialState
       (archive [entry ''ilm_policies.json'' ''{}'', entry ''version.json'' ''[1]'']) = Inr s \<and>
     delivered s = [b] \<and> policies b = VObject [] \<and> version b = VArray [VNumber 1] \<and>
     error s = Some (''Note: Some ILM files are missing (ilm_explain_only_errors.json), '' @
                     ''but you can still view available data.'')"
proof -
  let ?fs = "[entry ''ilm_policies.json'' ''{}'', entry ''version.json'' ''[1]'']"
  let ?P = "JSON_parse examplePlatform"
  have la: "loadAsync (archive ?fs) = Inr ?fs" by (simp add: archive_def)
  have st: "storeSettings examplePlatform (localStorage initialState) (processFiles ?P ?fs) =
      Inr (localStorage initialState)"
    by (simp add: run_eval)
  have cb: "onDataLoaded examplePlatform (toBundle (processFiles ?P ?fs)) = None"
    by (simp add: examplePlatform_def)
  obtain s b where
    run: "processZipFile examplePlatform initialState (archive ?fs) = Inr s"
    and d: "delivered s = delivered initialState @ [b]"
    and vals: "\<forall>r. arg r b =
      (if r = Shards then orElse (lastValue ?P r ?fs) (VArray []) else lastValue ?P r ?fs)"
    and err: "error s =
       (if truthy (lastValue ?P Errors ?fs) \<and> truthy (lastValue ?P Policies ?fs)
        then None
        else Some (''Note: Some ILM files are missing ('' @
               (if truthy (lastValue ?P Policies ?fs) then ''ilm_explain_only_errors.json''
                else if truthy (lastValue ?P Errors ?fs) then ''ilm_policies.json''
                else ''ilm_explain_only_errors.json, ilm_policies.json'') @
               ''), but you can still view available data.''))"
    using C5_advisory [OF la st cb] by blast
  have p: "policies b = VObject []" using vals [rule_format, of Policies]
    by (simp add: spec_eval)
  have v: "version b = VArray [VNumber 1]" using vals [rule_format, of Version]
    by (simp add: spec_eval)
  have e: "error s = Some (''Note: Some ILM files are missing (ilm_explain_only_errors.json), '' @
                     ''but you can still view available data.'')"
    using err by (simp add: spec_eval)
  from run d p v e show ?thesis by (simp add: initialState_def)
qed

text \<open>
  C6. Matching is by substring of the lower-cased path: a path matches a rule exactly when
  its lower-cased form is some prefix, then the rule's filename, then some suffix. Letter
  case does not count: paths with the same lower-cased form match the same rules, and so
  does a path and its upper-cased form. The chain of the source picks a parsed entry up
  exactly when its path matches some rule. \<^verbatim>\<open>Data/ILM_Policies.JSON\<close> matches the
  policies rule, and the loop assigns a readable entry of that name to the policies
  variable.
\<close>

theorem C6_matching:
  "(matches path r \<longleftrightarrow> (\<exists>pre suf. toLowerCase path = pre @ filename r @ suf)) \<and>
   (toLowerCase path = toLowerCase path' \<longrightarrow> matches path r = matches path' r) \<and>
   matches (toUpperCase path) r = matches path r \<and>
   (assign (toLowerCase path) json v \<noteq> v \<longleftrightarrow> (\<exists>q. matches path q)) \<and>
   matches ''Data/ILM_Policies.JSON'' Policies \<and>
   processEntry parse v (entry ''Data/ILM_Policies.JSON'' content) =
     (case parse content of
        None \<Rightarrow> v
      | Some json \<Rightarrow> v\<lparr>policiesJson := json, foundFiles := foundFiles v @ [''ILM Policies'']\<rparr>)"
proof -
  have a: "matches path r \<longleftrightarrow> (\<exists>pre suf. toLowerCase path = pre @ filename r @ suf)"
    by (simp add: matches_def includesStr_iff)
  have b: "toLowerCase path = toLowerCase path' \<longrightarrow> matches path r = matches path' r"
    by (simp add: matches_def)
  have c: "matches (toUpperCase path) r = matches path r"
    by (simp add: matches_def toLowerCase_toUpperCase)
  have low: "toLowerCase ''Data/ILM_Policies.JSON'' = ''data/ilm_policies.json''"
    by (simp add: lower_eval)
  have d: "matches ''Data/ILM_Policies.JSON'' Policies"
    by (simp add: matches_def low)
  have e: "processEntry parse v (entry ''Data/ILM_Policies.JSON'' content) =
     (case parse content of
        None \<Rightarrow> v
      | Some json \<Rightarrow> v\<lparr>policiesJson := json, foundFiles := foundFiles v @ [''ILM Policies'']\<rparr>)"
    by (simp add: processEntry_def tryEntry_def entry_def low assign_def split: option.splits)
  have g: "assign (toLowerCase path) json v \<noteq> v \<longleftrightarrow> (\<exists>q. matches path q)"
    by (rule assign_changes)
  from a b c g d e show ?thesis by blast
qed

theorem C6_matching_witness:
  "matches ''a/VERSION.json'' Version \<and> matches ''A/version.JSON'' Version \<and>
   \<not> matches ''a/VERSION.json'' Shards \<and> matches ''A/VERSION.JSON'' Version \<and>
   versionJson (processEntry exampleParse initialLocals
     (entry ''Data/ILM_Policies.JSON'' ''{}'')) = VNull \<and>
   policiesJson (processEntry exampleParse initialLocals
     (entry ''Data/ILM_Policies.JSON'' ''{}'')) = VObject []"
proof -
  have l1: "toLowerCase ''a/VERSION.json'' = ''a/version.json''" by (simp add: lower_eval)
  have l2: "toLowerCase ''A/version.JSON'' = ''a/version.json''" by (simp add: lower_eval)
  have u: "toUpperCase ''a/VERSION.json'' = ''A/VERSION.JSON''" by (simp add: upper_eval)
  have m: "matches ''a/VERSION.json'' Version" "\<not> matches ''a/VERSION.json'' Shards"
    by (simp_all add: matches_def l1)
  note t = C6_matching [of "''a/VERSION.json''" Version "''A/version.JSON''" "VObject []"
      initialLocals exampleParse "''{}''"]
  have p: "exampleParse ''{}'' = Some (VObject [])" by (simp add: exampleParse_def)
  show ?thesis using t m by (simp add: l1 l2 u p initialLocals_def)
qed

text \<open>
  C7. Of the ordered table at most one rule applies to an entry, the first one its
  lower-cased path matches: the chain assigns the parsed value to that rule's variable and
  leaves every other variable as it was, so one round of the loop changes at most one of
  them. On the eight filenames themselves each name matches its own rule only.
\<close>

theorem C7_first_rule_only:
  "(applies path = Some r \<longleftrightarrow>
      matches path r \<and> (\<forall>r' \<in> set (takeWhile (\<lambda>x. x \<noteq> r) rules). \<not> matches path r')) \<and>
   (\<forall>q. var q (assign (toLowerCase path) json v) = (if applies path = Some q then json else var q v)) \<and>
   (\<forall>q q'. var q (processEntry parse v e) \<noteq> var q v \<and> var q' (processEntry parse v e) \<noteq> var q' v
      \<longrightarrow> q = q') \<and>
   (\<forall>q q'. matches (filename q) q' \<longleftrightarrow> q' = q)"
proof -
  have c: "\<forall>q q'. var q (processEntry parse v e) \<noteq> var q v \<and>
      var q' (processEntry parse v e) \<noteq> var q' v \<longrightarrow> q = q'"
    by (auto simp: var_processEntry split: option.splits if_splits)
  have d: "\<forall>q q'. matches (filename q) q' \<longleftrightarrow> q' = q"
  proof (intro allI)
    fix q q'
    have low: "toLowerCase (filename q) = filename q"
      by (cases q) (simp_all add: lower_eval)
    show "matches (filename q) q' \<longleftrightarrow> q' = q"
      unfolding matches_def low by (cases q; cases q'; simp)
  qed
  from c d show ?thesis by (simp add: applies_iff var_assign)
qed

theorem C7_first_rule_only_witness:
  "matches ''ilm_policies.json.version.json'' Policies \<and>
   matches ''ilm_policies.json.version.json'' Version \<and>
   applies ''ilm_policies.json.version.json'' = Some Policies \<and>
   var Policies (assign (toLowerCase ''ilm_policies.json.version.json'') (VObject []) initialLocals)
     = VObject [] \<and>
   var Version (assign (toLowerCase ''ilm_policies.json.version.json'') (VObject []) initialLocals)
     = VNull \<and>
   \<not> matches (filename Settings) Version \<and>
   var Version (processEntry exampleParse initialLocals (entry ''version.json'' ''{}'')) = VObject [] \<and>
   var Shards (processEntry exampleParse initialLocals (entry ''version.json'' ''{}'')) = VNull"
proof -
  have low: "toLowerCase ''ilm_policies.json.version.json'' = ''ilm_policies.json.version.json''"
    by (simp add: lower_eval)
  have m: "matches ''ilm_policies.json.version.json'' Policies"
    "matches ''ilm_policies.json.version.json'' Version"
    "\<not> matches ''ilm_policies.json.version.json'' Errors"
    by (simp_all add: matches_def low)
  note t = C7_first_rule_only [of "''ilm_policies.json.version.json''" Policies "VObject []"
      initialLocals exampleParse "entry ''version.json'' ''{}''"]
  have a: "applies ''ilm_policies.json.version.json'' = Some Policies"
    using t m by (simp add: rules_def)
  have w: "applies ''ilm_policies.json.version.json'' \<noteq> Some Version" by (simp add: a)
  from t have d: "\<not> matches (filename Settings) Version" by blast
  from t have v: "var Version (assign (toLowerCase ''ilm_policies.json.version.json'')
      (VObject []) initialLocals) = var Version initialLocals"
    using w by presburger
  from t have p: "var Policies (assign (toLowerCase ''ilm_policies.json.version.json'')
      (VObject []) initialLocals) = VObject []"
    using a by presburger
  have ch: "var Version (processEntry exampleParse initialLocals (entry ''version.json'' ''{}''))
      = VObject []"
    by (simp add: var_processEntry example_applies parsed_def entry_def exampleParse_def)
  then have ch': "var Version (processEntry exampleParse initialLocals (entry ''version.json'' ''{}''))
      \<noteq> var Version initialLocals"
    by (simp add: initialLocals_def)
  from t have one: "var Version (processEntry exampleParse initialLocals (entry ''version.json'' ''{}''))
        \<noteq> var Version initialLocals \<and>
      var Shards (processEntry exampleParse initialLocals (entry ''version.json'' ''{}''))
        \<noteq> var Shards initialLocals \<longrightarrow> Version = Shards"
    by blast
  with ch' have sh: "var Shards (processEntry exampleParse initialLocals (entry ''version.json'' ''{}''))
      = var Shards initialLocals"
    by auto
  show ?thesis using m a v p d ch sh by (simp add: initialLocals_def)
qed

text \<open>
  The claim C8 as it is worded fails: a file \<^verbatim>\<open>settings.json\<close> holding \<^verbatim>\<open>false\<close> is
  matched, parsed and delivered in the bundle, no write throws, and nothing is stored under
  \<^verbatim>\<open>settings\<close>.
\<close>

theorem C8_counterexample:
  "\<not> dir (snd (entry ''settings.json'' ''false'')) \<and>
   applies (fst (entry ''settings.json'' ''false'')) = Some Settings \<and>
   JSON_parse examplePlatform ''false'' = Some (VBool False) \<and>
   processZipFile examplePlatform initialState (archive [entry ''settings.json'' ''false'']) =
     Inr (initialState
       \<lparr>error := Some (''Note: Some ILM files are missing (ilm_explain_only_errors.json, '' @
                 ''ilm_policies.json), but you can still view available data.''),
        timers := [[entry ''settings.json'' ''false'']],
        delivered := [\<lparr>errors = VNull, policies = VNull, version = VNull,
                       shards = VArray [], allocation = VNull, settings = VBool False,
                       nodesStats = VNull, pipelines = VNull\<rparr>]\<rparr>) \<and>
   localStorage (projr (processZipFile examplePlatform initialState
       (archive [entry ''settings.json'' ''false'']))) ''settings'' = None"
  by (simp add: run_eval example_applies)

text \<open>
  C8, amended. After an archive that opens, take the content of the last parsed entry the
  settings rule applies to. When it is truthy and serialising and storing it do not throw,
  its serialisation is stored under the key \<^verbatim>\<open>settings\<close>, nothing else in the storage
  changes, the value is delivered as the settings field, and the deferred task leaves the
  key as it is. When it is falsy, it is delivered and the storage is left as it was. (What
  a throw while the settings are stored does is the subject of C3.)
\<close>

theorem C8_settings_persisted:
  assumes "loadAsync f = Inr fs"
  shows "(truthy (lastValue (JSON_parse env) Settings fs) \<and>
      JSON_stringify env (lastValue (JSON_parse env) Settings fs) = Inr text \<and>
      setItem_throws env (localStorage st) ''settings'' text = None \<longrightarrow>
        (\<exists>s b. processZipFile env st f = Inr s \<and> delivered s = delivered st @ [b] \<and>
           settings b = lastValue (JSON_parse env) Settings fs \<and>
           localStorage s = (localStorage st)(''settings'' \<mapsto> text) \<and>
           localStorage (runTimer env s) ''settings'' = Some text)) \<and>
     (\<not> truthy (lastValue (JSON_parse env) Settings fs) \<longrightarrow>
        (\<exists>s b. processZipFile env st f = Inr s \<and> delivered s = delivered st @ [b] \<and>
           settings b = lastValue (JSON_parse env) Settings fs \<and>
           localStorage s = localStorage st))"
proof -
  let ?P = "JSON_parse env"
  let ?v = "processFiles ?P fs"
  have e: "settingsJson ?v = lastValue ?P Settings fs"
    using var_processFiles [of Settings ?P fs] by simp
  have a: "truthy (lastValue ?P Settings fs) \<and>
      JSON_stringify env (lastValue ?P Settings fs) = Inr text \<and>
      setItem_throws env (localStorage st) ''settings'' text = None \<longrightarrow>
        (\<exists>s b. processZipFile env st f = Inr s \<and> delivered s = delivered st @ [b] \<and>
           settings b = lastValue ?P Settings fs \<and>
           localStorage s = (localStorage st)(''settings'' \<mapsto> text) \<and>
           localStorage (runTimer env s) ''settings'' = Some text)"
  proof
    assume h: "truthy (lastValue ?P Settings fs) \<and>
      JSON_stringify env (lastValue ?P Settings fs) = Inr text \<and>
      setItem_throws env (localStorage st) ''settings'' text = None"
    then have s: "storeSettings env (localStorage st) ?v = Inr ((localStorage st)(''settings'' \<mapsto> text))"
      by (simp add: storeSettings_def storeItem_def e)
    show "\<exists>s b. processZipFile env st f = Inr s \<and> delivered s = delivered st @ [b] \<and>
           settings b = lastValue ?P Settings fs \<and>
           localStorage s = (localStorage st)(''settings'' \<mapsto> text) \<and>
           localStorage (runTimer env s) ''settings'' = Some text"
      by (simp add: processZipFile_stored [OF assms s] runTimer_settings toBundle_def e)
  qed
  have b: "\<not> truthy (lastValue ?P Settings fs) \<longrightarrow>
        (\<exists>s b. processZipFile env st f = Inr s \<and> delivered s = delivered st @ [b] \<and>
           settings b = lastValue ?P Settings fs \<and> localStorage s = localStorage st)"
  proof
    assume "\<not> truthy (lastValue ?P Settings fs)"
    then have s: "storeSettings env (localStorage st) ?v = Inr (localStorage st)"
      by (simp add: storeSettings_def e)
    show "\<exists>s b. processZipFile env st f = Inr s \<and> delivered s = delivered st @ [b] \<and>
           settings b = lastValue ?P Settings fs \<and> localStorage s = localStorage st"
      by (simp add: processZipFile_stored [OF assms s] toBundle_def e)
  qed
  from a b show ?thesis by blast
qed

theorem C8_settings_persisted_witness:
  "(\<exists>s b. processZipFile examplePlatform initialState
       (archive [entry ''settings.json'' ''{}'']) = Inr s \<and>
     delivered s = [b] \<and> settings b = VObject [] \<and>
     localStorage s = [''settings'' \<mapsto> ''{}'']) \<and>
   (\<exists>s b. processZipFile examplePlatform initialState
       (archive [entry ''settings.json'' ''0'']) = Inr s \<and>
     delivered s = [b] \<and> settings b = VNumber 0 \<and> localStorage s = Map.empty)"
proof -
  let ?fs = "[entry ''settings.json'' ''{}'']"
  let ?gs = "[entry ''settings.json'' ''0'']"
  let ?P = "JSON_parse examplePlatform"
  have la: "loadAsync (archive ?fs) = Inr ?fs" by (simp add: archive_def)
  have lb: "loadAsync (archive ?gs) = Inr ?gs" by (simp add: archive_def)
  have lv: "lastValue ?P Settings ?fs = VObject []" by (simp add: spec_eval)
  have lw: "lastValue ?P Settings ?gs = VNumber 0" by (simp add: spec_eval)
  have h: "truthy (lastValue ?P Settings ?fs) \<and>
      JSON_stringify examplePlatform (lastValue ?P Settings ?fs) = Inr ''{}'' \<and>
      setItem_throws examplePlatform (localStorage initialState) ''settings'' ''{}'' = None"
    unfolding lv by (simp add: examplePlatform_def exampleStringify_def)
  have g: "\<not> truthy (lastValue ?P Settings ?gs)" by (simp add: lw)
  from C8_settings_persisted [OF la, of examplePlatform "''{}''" initialState] h
  have a: "\<exists>s b. processZipFile examplePlatform initialState (archive ?fs) = Inr s \<and>
      delivered s = delivered initialState @ [b] \<and>
      settings b = lastValue ?P Settings ?fs \<and>
      localStorage s = (localStorage initialState)(''settings'' \<mapsto> ''{}'')"
    by blast
  from C8_settings_persisted [OF lb, of examplePlatform "''{}''" initialState] g
  have b: "\<exists>s b. processZipFile examplePlatform initialState (archive ?gs) = Inr s \<and>
      delivered s = delivered initialState @ [b] \<and>
      settings b = lastValue ?P Settings ?gs \<and> localStorage s = localStorage initialState"
    by blast
  from a b show ?thesis by (simp add: lv lw initialState_def)
qed

text \<open>
  C9. With a master record, a node is marked as master exactly when its identifier is the
  record's id or its name is the record's node name; without a master record no node is.
\<close>

theorem C9_master_marking:
  "(isMasterNode (Some m) nodeId nodeName \<longleftrightarrow> master_id m = nodeId \<or> master_node m = nodeName) \<and>
   \<not> isMasterNode None nodeId nodeName \<and>
   masterFlags (Some m) nodes =
     map (\<lambda>(i, n). (i, master_id m = i \<or> master_node m = name n)) nodes \<and>
   masterFlags None nodes = map (\<lambda>(i, n). (i, False)) nodes"
  by (simp add: isMasterNode_def masterFlags_def)

theorem C9_master_marking_witness:
  "masterFlags (Some \<lparr>master_id = ''n1'', master_node = ''hot-2''\<rparr>)
     [(''n1'', \<lparr>name = ''hot-1''\<rparr>), (''n2'', \<lparr>name = ''hot-2''\<rparr>), (''n3'', \<lparr>name = ''warm''\<rparr>)]
     = [(''n1'', True), (''n2'', True), (''n3'', False)] \<and>
   masterFlags None [(''n1'', \<lparr>name = ''hot-1''\<rparr>)] = [(''n1'', False)]"
  using C9_master_marking [of "\<lparr>master_id = ''n1'', master_node = ''hot-2''\<rparr>" "''n1''" "''hot-1''"
      "[(''n1'', \<lparr>name = ''hot-1''\<rparr>), (''n2'', \<lparr>name = ''hot-2''\<rparr>), (''n3'', \<lparr>name = ''warm''\<rparr>)]"]
    C9_master_marking [of "\<lparr>master_id = ''n1'', master_node = ''hot-2''\<rparr>" "''n1''" "''hot-1''"
      "[(''n1'', \<lparr>name = ''hot-1''\<rparr>)]"]
  by simp

text \<open>
  The claim C10 as it is worded fails. Three entries match the shards rule and are parsed.
  The last of them, \<^verbatim>\<open>version.json.shards.json\<close>, goes to the version field, since the
  version rule comes first; the last one the shards rule applies to holds \<^verbatim>\<open>0\<close>, and the
  shards field delivered is the empty sequence: neither the one content nor the other.
\<close>

theorem C10_counterexample:
  "matches (fst (entry ''a/shards.json'' ''[1]'')) Shards \<and>
   matches (fst (entry ''b/shards.json'' ''0'')) Shards \<and>
   matches (fst (entry ''version.json.shards.json'' ''[3]'')) Shards \<and>
   JSON_parse examplePlatform ''[1]'' = Some (VArray [VNumber 1]) \<and>
   JSON_parse examplePlatform ''0'' = Some (VNumber 0) \<and>
   JSON_parse examplePlatform ''[3]'' = Some (VArray [VNumber 3]) \<and>
   processZipFile examplePlatform initialState
       (archive [entry ''a/shards.json'' ''[1]'', entry ''b/shards.json'' ''0'',
                 entry ''version.json.shards.json'' ''[3]'']) =
     Inr (initialState
       \<lparr>error := Some (''Note: Some ILM files are missing (ilm_explain_only_errors.json, '' @
                 ''ilm_policies.json), but you can still view available data.''),
        timers := [[entry ''a/shards.json'' ''[1]'', entry ''b/shards.json'' ''0'',
                    entry ''version.json.shards.json'' ''[3]'']],
        delivered := [\<lparr>errors = VNull, policies = VNull, version = VArray [VNumber 3],
                       shards = VArray [], allocation = VNull, settings = VNull,
                       nodesStats = VNull, pipelines = VNull\<rparr>]\<rparr>)"
  by (simp add: run_eval matches_def)

text \<open>
  C10, amended. The order is that of \<^verbatim>\<open>Object.entries(contents.files)\<close>, which is keyed by
  name and so is not the zip directory's order when a name is repeated there. When the
  same rule applies to two entries of that list (it is the first rule each lower-cased
  path matches), both are parsed, and the later of the two is the last such entry, the
  rule's variable ends as the content of the later one and the earlier content is
  overwritten. The field of the bundle made from the variables is that content, except
  that a falsy content of shards becomes the empty sequence; that bundle is the only one
  the run can deliver, and it is delivered whenever storing the settings does not throw.
  The outcome depends on the order: of the two entries alone, whichever comes second
  supplies the value.
\<close>

theorem C10_last_entry_wins:
  assumes f: "loadAsync f = Inr (ws @ e1 # xs @ e2 # ys)"
    and a1: "applies (fst e1) = Some r" and a2: "applies (fst e2) = Some r"
    and d1: "\<not> dir (snd e1)"
    and p1: "Option.bind (async_string (snd e1)) (JSON_parse env) = Some j1"
    and d2: "\<not> dir (snd e2)"
    and p2: "Option.bind (async_string (snd e2)) (JSON_parse env) = Some j2"
    and rest: "\<forall>d \<in> set ys. applies (fst d) = Some r \<longrightarrow> parsed (JSON_parse env) (snd d) = None"
  shows "\<exists>s b. processZipFile env st f = Inr s \<and>
     b = toBundle (processFiles (JSON_parse env) (ws @ e1 # xs @ e2 # ys)) \<and>
     var r (processFiles (JSON_parse env) (ws @ e1 # xs @ e2 # ys)) = j2 \<and>
     arg r b = (if r = Shards then orElse j2 (VArray []) else j2) \<and>
     (delivered s = delivered st \<or> delivered s = delivered st @ [b]) \<and>
     (\<forall>ls. storeSettings env (localStorage st)
            (processFiles (JSON_parse env) (ws @ e1 # xs @ e2 # ys)) = Inr ls \<longrightarrow>
        delivered s = delivered st @ [b]) \<and>
     var r (processFiles (JSON_parse env) [e1, e2]) = j2 \<and>
     var r (processFiles (JSON_parse env) [e2, e1]) = j1"
proof -
  let ?P = "JSON_parse env"
  let ?fs = "ws @ e1 # xs @ e2 # ys"
  have q1: "parsed ?P (snd e1) = Some j1" using d1 p1 by (simp add: parsed_def)
  have q2: "parsed ?P (snd e2) = Some j2" using d2 p2 by (simp add: parsed_def)
  have "lastValue ?P r ((ws @ e1 # xs) @ e2 # ys) = j2"
    using a2 q2 rest by (rule lastValue_last)
  then have v: "var r (processFiles ?P ?fs) = j2"
    by (simp add: var_processFiles)
  have "lastValue ?P r ([e1] @ e2 # []) = j2"
    using a2 q2 by (rule lastValue_last) simp
  then have v12: "var r (processFiles ?P [e1, e2]) = j2"
    by (simp add: var_processFiles)
  have "lastValue ?P r ([e2] @ e1 # []) = j1"
    using a1 q1 by (rule lastValue_last) simp
  then have v21: "var r (processFiles ?P [e2, e1]) = j1"
    by (simp add: var_processFiles)
  have b: "arg r (toBundle (processFiles ?P ?fs)) =
      (if r = Shards then orElse j2 (VArray []) else j2)"
    unfolding arg_toBundle v by (rule refl)
  obtain s where s: "processZipFile env st f = Inr s"
    "delivered s = delivered st \<or> delivered s = delivered st @ [toBundle (processFiles ?P ?fs)]"
    "\<forall>ls. storeSettings env (localStorage st) (processFiles ?P ?fs) = Inr ls \<longrightarrow>
        delivered s = delivered st @ [toBundle (processFiles ?P ?fs)]"
    using processZipFile_delivers [OF f, of env st] by blast
  from s v v12 v21 b show ?thesis by blast
qed

theorem C10_last_entry_wins_witness:
  "\<exists>s b. processZipFile examplePlatform initialState
       (archive [entry ''a/version.json'' ''[1]'', entry ''b/version.json'' ''[2]'',
                 entry ''settings.json'' ''{}'']) = Inr s \<and>
     delivered s = [b] \<and> version b = VArray [VNumber 2] \<and>
     versionJson (processFiles (JSON_parse examplePlatform)
       [entry ''b/version.json'' ''[2]'', entry ''a/version.json'' ''[1]'']) = VArray [VNumber 1]"
proof -
  let ?e1 = "entry ''a/version.json'' ''[1]''"
  let ?e2 = "entry ''b/version.json'' ''[2]''"
  let ?ys = "[entry ''settings.json'' ''{}'']"
  let ?P = "JSON_parse examplePlatform"
  have f: "loadAsync (archive [?e1, ?e2, entry ''settings.json'' ''{}'']) =
      Inr ([] @ ?e1 # [] @ ?e2 # ?ys)"
    by (simp add: archive_def)
  have a1: "applies (fst ?e1) = Some Version" by (simp add: entry_def example_applies)
  have a2: "applies (fst ?e2) = Some Version" by (simp add: entry_def example_applies)
  have d1: "\<not> dir (snd ?e1)" by (simp add: entry_def)
  have d2: "\<not> dir (snd ?e2)" by (simp add: entry_def)
  have p1: "Option.bind (async_string (snd ?e1)) ?P = Some (VArray [VNumber 1])"
    by (simp add: entry_def examplePlatform_def exampleParse_def)
  have p2: "Option.bind (async_string (snd ?e2)) ?P = Some (VArray [VNumber 2])"
    by (simp add: entry_def examplePlatform_def exampleParse_def)
  have rest: "\<forall>d \<in> set ?ys. applies (fst d) = Some Version \<longrightarrow> parsed ?P (snd d) = None"
    by (simp add: entry_def example_applies)
  have st: "storeSettings examplePlatform (localStorage initialState)
      (processFiles ?P ([] @ ?e1 # [] @ ?e2 # ?ys)) = Inr [''settings'' \<mapsto> ''{}'']"
    by (simp add: run_eval)
  obtain s b where r: "processZipFile examplePlatform initialState
        (archive [?e1, ?e2, entry ''settings.json'' ''{}'']) = Inr s"
    "arg Version b = (if Version = Shards then orElse (VArray [VNumber 2]) (VArray [])
       else VArray [VNumber 2])"
    "\<forall>ls. storeSettings examplePlatform (localStorage initialState)
            (processFiles ?P ([] @ ?e1 # [] @ ?e2 # ?ys)) = Inr ls \<longrightarrow>
        delivered s = delivered initialState @ [b]"
    "var Version (processFiles ?P [?e2, ?e1]) = VArray [VNumber 1]"
    using C10_last_entry_wins [OF f a1 a2 d1 p1 d2 p2 rest, of initialState] by blast
  from r(3) st have "delivered s = delivered initialState @ [b]" by blast
  with r show ?thesis by (auto simp: initialState_def)
qed

end
